theory Spec2Isabelle
  imports Complex_Main "HOL-Library.Word"
begin

section \<open>JavaScript strings\<close>

text \<open>
  A JavaScript string is a sequence of UTF-16 code units; \<open>length\<close> counts code units.
  String literals of the source are ASCII and are embedded with \<open>js\<close>.
\<close>

type_synonym code_unit = "16 word"
type_synonym jsstring = "code_unit list"

definition js :: "string \<Rightarrow> jsstring" where
  "js s = map of_char s"

text \<open>
  The ECMAScript WhiteSpace and LineTerminator code points: the set that
  \<open>String.prototype.trim\<close> strips and that the class escape \<open>\s\<close> matches. All of
  them lie in the Basic Multilingual Plane.
\<close>

definition is_whitespace :: "nat \<Rightarrow> bool" where
  "is_whitespace c =
     (c = 0x9 \<or> c = 0xA \<or> c = 0xB \<or> c = 0xC \<or> c = 0xD \<or> c = 0x20 \<or> c = 0xA0
      \<or> c = 0x1680 \<or> (0x2000 \<le> c \<and> c \<le> 0x200A) \<or> c = 0x2028 \<or> c = 0x2029
      \<or> c = 0x202F \<or> c = 0x205F \<or> c = 0x3000 \<or> c = 0xFEFF)"

definition ws_unit :: "code_unit \<Rightarrow> bool" where
  "ws_unit u = is_whitespace (unat u)"

text \<open>\<open>selectedText.trim()\<close>: strip white space from both ends.\<close>

definition trim :: "jsstring \<Rightarrow> jsstring" where
  "trim s = rev (dropWhile ws_unit (rev (dropWhile ws_unit s)))"

text \<open>
  A regular expression with the \<open>u\<close> flag reads the string as code points: a lead
  surrogate followed by a trail surrogate is one code point, any other code unit
  (a lone surrogate included) is a code point of its own.
\<close>

definition is_lead :: "code_unit \<Rightarrow> bool" where
  "is_lead u = (0xD800 \<le> unat u \<and> unat u \<le> 0xDBFF)"

definition is_trail :: "code_unit \<Rightarrow> bool" where
  "is_trail u = (0xDC00 \<le> unat u \<and> unat u \<le> 0xDFFF)"

fun code_points :: "jsstring \<Rightarrow> nat list" where
  "code_points [] = []"
| "code_points [u] = [unat u]"
| "code_points (h # l # us) =
     (if is_lead h \<and> is_trail l
      then (0x10000 + (unat h - 0xD800) * 0x400 + (unat l - 0xDC00)) # code_points us
      else unat h # code_points (l # us))"

text \<open>
  \<open>/^[\s\p{P}]*$/u.test(s)\<close>: every code point of \<open>s\<close> is white space or has the
  Unicode general category Punctuation. The category table belongs to the JavaScript
  engine (it grows with the Unicode version), so it is the parameter \<open>P\<close> of the model.
\<close>

definition only_space_or_punct :: "(nat \<Rightarrow> bool) \<Rightarrow> jsstring \<Rightarrow> bool" where
  "only_space_or_punct P s = list_all (\<lambda>c. is_whitespace c \<or> P c) (code_points s)"

text \<open>The ASCII part of the category Punctuation, for evaluating the model on examples.\<close>

definition ascii_punct :: "nat \<Rightarrow> bool" where
  "ascii_punct c =
     (c \<in> {0x21, 0x22, 0x23, 0x25, 0x26, 0x27, 0x28, 0x29, 0x2A, 0x2C, 0x2D, 0x2E, 0x2F,
            0x3A, 0x3B, 0x3F, 0x40, 0x5B, 0x5C, 0x5D, 0x5F, 0x7B, 0x7D})"

section \<open>The DOM\<close>

text \<open>
  The document is a finite tree. A node is referred to by its position, the list of
  child indices from the root, so two references are the same node (\<open>===\<close>) exactly when
  they are equal. Attributes and classes are meaningful on elements only.
\<close>

datatype node_type =
  ELEMENT_NODE | TEXT_NODE | COMMENT_NODE | DOCUMENT_NODE | DOCUMENT_FRAGMENT_NODE

datatype node =
  Node (nodeType: node_type) (attributes: "(string \<times> string) list")
       (classList: "string list") (childNodes: "node list")

type_synonym node_ref = "nat list"

fun node_at :: "node \<Rightarrow> node_ref \<Rightarrow> node option" where
  "node_at n [] = Some n"
| "node_at n (i # p) =
     (if i < length (childNodes n) then node_at (childNodes n ! i) p else None)"

definition is_element :: "node \<Rightarrow> node_ref \<Rightarrow> bool" where
  "is_element doc p = (case node_at doc p of Some n \<Rightarrow> nodeType n = ELEMENT_NODE | None \<Rightarrow> False)"

text \<open>\<open>node.parentElement\<close>: the parent when it is an element, otherwise \<open>null\<close>.\<close>

definition parentElement :: "node \<Rightarrow> node_ref \<Rightarrow> node_ref option" where
  "parentElement doc p =
     (if p = [] then None
      else if is_element doc (butlast p) then Some (butlast p) else None)"

datatype selector = AttrEquals string string | HasClass string

definition matches_node :: "selector \<Rightarrow> node \<Rightarrow> bool" where
  "matches_node sel n =
     (nodeType n = ELEMENT_NODE \<and>
      (case sel of
         AttrEquals a v \<Rightarrow> map_of (attributes n) a = Some v
       | HasClass c \<Rightarrow> c \<in> set (classList n)))"

definition matches :: "selector \<Rightarrow> node \<Rightarrow> node_ref \<Rightarrow> bool" where
  "matches sel doc p = (case node_at doc p of Some n \<Rightarrow> matches_node sel n | None \<Rightarrow> False)"

text \<open>
  \<open>element.closest(sel)\<close>: the nearest inclusive ancestor element that matches, walking
  up through \<open>parentElement\<close>; \<open>null\<close> when there is none.
\<close>

function closest :: "selector \<Rightarrow> node \<Rightarrow> node_ref \<Rightarrow> node_ref option" where
  "closest sel doc p =
     (if matches sel doc p then Some p
      else case parentElement doc p of None \<Rightarrow> None | Some q \<Rightarrow> closest sel doc q)"
  by pat_completeness auto
termination
  by (relation "measure (\<lambda>(sel, doc, p). length p)")
    (auto simp: parentElement_def split: if_splits)

text \<open>
  \<open>element.querySelector(sel)\<close>: the first proper descendant that matches, in document
  order, as a position relative to the element; \<open>null\<close> when there is none.
\<close>

fun querySelector_node :: "selector \<Rightarrow> node \<Rightarrow> node_ref option"
  and querySelector_list :: "selector \<Rightarrow> nat \<Rightarrow> node list \<Rightarrow> node_ref option" where
  "querySelector_node sel (Node t a c ks) = querySelector_list sel 0 ks"
| "querySelector_list sel i [] = None"
| "querySelector_list sel i (k # ks) =
     (if matches_node sel k then Some [i]
      else case querySelector_node sel k of
             Some q \<Rightarrow> Some (i # q)
           | None \<Rightarrow> querySelector_list sel (Suc i) ks)"

definition querySelector :: "selector \<Rightarrow> node \<Rightarrow> node_ref \<Rightarrow> node_ref option" where
  "querySelector sel doc p =
     (case node_at doc p of
        None \<Rightarrow> None
      | Some n \<Rightarrow> map_option (\<lambda>q. p @ q) (querySelector_node sel n))"

section \<open>Exceptions\<close>

text \<open>
  A thrown exception is the left injection of a sum. Reading a property of \<open>null\<close> or
  \<open>undefined\<close>, and calling a method the receiver does not have, throw a \<open>TypeError\<close>.
\<close>

datatype error = TypeError | IndexSizeError

definition bind :: "error + 'a \<Rightarrow> ('a \<Rightarrow> error + 'b) \<Rightarrow> error + 'b" where
  "bind m f = (case m of Inl e \<Rightarrow> Inl e | Inr x \<Rightarrow> f x)"

text \<open>
  \<open>c.nodeType === Node.TEXT_NODE ? c.parentElement : c\<close>. A reference that denotes no
  node stands for \<open>undefined\<close>, whose \<open>nodeType\<close> cannot be read.
\<close>

definition element_of :: "node \<Rightarrow> node_ref \<Rightarrow> error + node_ref option" where
  "element_of doc c =
     (case node_at doc c of
        None \<Rightarrow> Inl TypeError
      | Some n \<Rightarrow> if nodeType n = TEXT_NODE then Inr (parentElement doc c) else Inr (Some c))"

text \<open>
  \<open>x.closest(sel)\<close> for a value \<open>x\<close> that is \<open>null\<close> or a node: only elements have the
  method \<open>closest\<close>.
\<close>

definition call_closest :: "selector \<Rightarrow> node \<Rightarrow> node_ref option \<Rightarrow> error + node_ref option" where
  "call_closest sel doc x =
     (case x of
        None \<Rightarrow> Inl TypeError
      | Some p \<Rightarrow> if is_element doc p then Inr (closest sel doc p) else Inl TypeError)"

section \<open>Ranges and the selection validator\<close>

record rect =
  top' :: real
  left :: real
  right :: real
  bottom :: real
  width :: real
  height :: real

text \<open>
  A \<open>Range\<close> object: its two boundary points, its common ancestor, and the rectangle
  that \<open>getBoundingClientRect()\<close> reports for it.
\<close>

record range_obj =
  startContainer :: node_ref
  startOffset :: nat
  endContainer :: node_ref
  endOffset :: nat
  commonAncestorContainer :: node_ref
  boundingClientRect :: rect

definition assistant :: selector where
  "assistant = AttrEquals ''data-message-role'' ''assistant''"

definition followup :: selector where
  "followup = AttrEquals ''data-followup-button'' ''true''"

definition dot_falling :: selector where
  "dot_falling = HasClass ''dot-falling''"

definition validateSelection ::
  "(nat \<Rightarrow> bool) \<Rightarrow> node \<Rightarrow> jsstring \<Rightarrow> range_obj option \<Rightarrow> error + bool" where
  "validateSelection P doc selectedText rng =
     (case rng of
        None \<Rightarrow> Inr False
      | Some r \<Rightarrow>
          if selectedText = [] then Inr False
          else let trimmedText = trim selectedText in
          if length trimmedText < 5 then Inr False
          else if only_space_or_punct P trimmedText then Inr False
          else
            bind (element_of doc (commonAncestorContainer r)) (\<lambda>messageElement.
            bind (call_closest assistant doc messageElement) (\<lambda>messageContainer.
              case messageContainer of
                None \<Rightarrow> Inr False
              | Some mc \<Rightarrow>
                  if querySelector dot_falling doc mc \<noteq> None then Inr False
                  else
                    bind (element_of doc (startContainer r)) (\<lambda>startContainer'.
                    bind (element_of doc (endContainer r)) (\<lambda>endContainer'.
                    bind (call_closest assistant doc startContainer') (\<lambda>startMessage.
                    bind (call_closest assistant doc endContainer') (\<lambda>endMessage.
                      Inr (startMessage = endMessage \<and> startMessage = Some mc))))))))"


section \<open>The selection tracker\<close>

text \<open>
  The state of the hook \<open>useTextSelection\<close>. The field \<open>range'\<close> holds a reference to a
  \<open>Range\<close> object, \<open>boundingRect\<close> a plain object of six numbers; \<open>None\<close> is \<open>null\<close>.
\<close>

record SelectionState =
  text' :: jsstring
  isValid :: bool
  range' :: "nat option"
  boundingRect :: "rect option"

text \<open>
  Everything the handlers read or write: the document, the \<open>Range\<close> objects of the page
  (a store indexed by reference, with the next unused reference), the live selection
  returned by \<open>window.getSelection()\<close> (the references of its ranges and the result of its
  \<open>toString()\<close>), the clock in milliseconds with the pending timers (handle, deadline),
  and the two cells of the hook: the state \<open>selection\<close> and \<open>selectionTimeoutRef\<close>.
  The fields \<open>passes\<close> and \<open>uncaught\<close> are bookkeeping of the model: how often the
  debounced callback ran, and the exceptions that left a handler or a timer callback.
\<close>

record world =
  document :: node
  rangeObjects :: "nat \<Rightarrow> range_obj"
  rangeCounter :: nat
  selectionRanges :: "nat list"
  selectionString :: jsstring
  clock :: nat
  timers :: "(nat \<times> nat) list"
  timerCounter :: nat
  selection :: SelectionState
  selectionTimeoutRef :: "nat option"
  passes :: nat
  uncaught :: "error list"

definition emptySelection :: SelectionState where
  "emptySelection = \<lparr>text' = [], isValid = False, range' = None, boundingRect = None\<rparr>"

definition setSelection :: "SelectionState \<Rightarrow> world \<Rightarrow> world" where
  "setSelection s w = w\<lparr>selection := s\<rparr>"

definition getRangeAt :: "nat \<Rightarrow> world \<Rightarrow> error + nat" where
  "getRangeAt i w =
     (if i < length (selectionRanges w) then Inr (selectionRanges w ! i) else Inl IndexSizeError)"

definition removeAllRanges :: "world \<Rightarrow> world" where
  "removeAllRanges w = w\<lparr>selectionRanges := [], selectionString := []\<rparr>"

text \<open>\<open>range.cloneRange()\<close>: a new \<open>Range\<close> object with the boundary points of the old one.\<close>

definition cloneRange :: "nat \<Rightarrow> world \<Rightarrow> nat \<times> world" where
  "cloneRange r w =
     (rangeCounter w,
      w\<lparr>rangeObjects := (rangeObjects w)(rangeCounter w := rangeObjects w r),
        rangeCounter := Suc (rangeCounter w)\<rparr>)"

text \<open>The function passed to \<open>setTimeout\<close> in \<open>handleSelectionChange\<close>.\<close>

definition onTimeout :: "(nat \<Rightarrow> bool) \<Rightarrow> world \<Rightarrow> error + world" where
  "onTimeout P w =
     (let selectedText = selectionString w in
      if selectedText = [] \<or> length (selectionRanges w) = 0
      then Inr (setSelection emptySelection w)
      else
        bind (getRangeAt 0 w) (\<lambda>rng.
        bind (validateSelection P (document w) selectedText (Some (rangeObjects w rng)))
          (\<lambda>isValid'.
            if isValid' then
              let rect = boundingClientRect (rangeObjects w rng);
                  (c, w') = cloneRange rng w
              in Inr (setSelection
                   \<lparr>text' = trim selectedText, isValid = True, range' = Some c,
                    boundingRect = Some \<lparr>top' = top' rect, left = left rect,
                      right = right rect, bottom = bottom rect,
                      width = width rect, height = height rect\<rparr>\<rparr> w')
            else Inr (setSelection emptySelection w))))"

text \<open>
  A timer callback that throws leaves the state as it was; the exception is reported as
  uncaught.
\<close>

definition runCallback :: "(nat \<Rightarrow> bool) \<Rightarrow> world \<Rightarrow> world" where
  "runCallback P w =
     (let w1 = w\<lparr>passes := Suc (passes w)\<rparr> in
      case onTimeout P w1 of
        Inr w' \<Rightarrow> w'
      | Inl e \<Rightarrow> w1\<lparr>uncaught := uncaught w1 @ [e]\<rparr>)"

text \<open>Timer handles are positive, so a stored handle is truthy.\<close>

definition setTimeout :: "nat \<Rightarrow> world \<Rightarrow> nat \<times> world" where
  "setTimeout delay w =
     (Suc (timerCounter w),
      w\<lparr>timers := timers w @ [(Suc (timerCounter w), clock w + delay)],
        timerCounter := Suc (timerCounter w)\<rparr>)"

definition clearTimeout :: "nat \<Rightarrow> world \<Rightarrow> world" where
  "clearTimeout i w = w\<lparr>timers := filter (\<lambda>(j, dl). j \<noteq> i) (timers w)\<rparr>"

definition handleSelectionChange :: "world \<Rightarrow> world" where
  "handleSelectionChange w =
     (let w1 = (case selectionTimeoutRef w of
                  Some i \<Rightarrow> if i \<noteq> 0 then clearTimeout i w else w
                | None \<Rightarrow> w);
          (i, w2) = setTimeout 100 w1
      in w2\<lparr>selectionTimeoutRef := Some i\<rparr>)"

definition clearSelection :: "world \<Rightarrow> world" where
  "clearSelection w = setSelection emptySelection (removeAllRanges w)"

definition handleClickOutside :: "node_ref \<Rightarrow> world \<Rightarrow> error + world" where
  "handleClickOutside target w =
     bind (call_closest assistant (document w) (Some target)) (\<lambda>messageContainer.
     bind (call_closest followup (document w) (Some target)) (\<lambda>followupButton.
       if messageContainer = None \<and> followupButton = None
       then Inr (setSelection emptySelection (removeAllRanges w))
       else Inr w))"

subsection \<open>The event loop\<close>

text \<open>
  Time passes in \<open>Elapse\<close>: the timers whose deadline is reached fire in the order of
  their deadlines, each at its deadline. \<open>SelectionChange\<close> and \<open>Click\<close> deliver the two
  document events the hook listens to, \<open>Clear\<close> is a call of the returned
  \<open>clearSelection\<close>. The other three events are the browser's: the live selection is
  replaced by new ranges, one of its ranges is moved in place, and the document is
  mutated, which also adjusts the boundary points of the \<open>Range\<close> objects.
\<close>

datatype event =
    SelectionChange
  | Click node_ref
  | Clear
  | Elapse nat
  | Select jsstring "range_obj list"
  | Adjust nat range_obj jsstring
  | Mutate node "range_obj \<Rightarrow> range_obj"

definition due :: "nat \<Rightarrow> (nat \<times> nat) list \<Rightarrow> (nat \<times> nat) list" where
  "due t ts = sort_key snd (filter (\<lambda>(i, dl). dl \<le> t) ts)"

definition fire :: "(nat \<Rightarrow> bool) \<Rightarrow> nat \<times> nat \<Rightarrow> world \<Rightarrow> world" where
  "fire P x w = runCallback P (w\<lparr>clock := snd x, timers := filter (\<lambda>y. y \<noteq> x) (timers w)\<rparr>)"

definition elapse :: "(nat \<Rightarrow> bool) \<Rightarrow> nat \<Rightarrow> world \<Rightarrow> world" where
  "elapse P d w =
     (let t = clock w + d
      in (foldl (\<lambda>v x. fire P x v) w (due t (timers w)))\<lparr>clock := t\<rparr>)"

definition select :: "jsstring \<Rightarrow> range_obj list \<Rightarrow> world \<Rightarrow> world" where
  "select s rs w =
     w\<lparr>rangeObjects := (\<lambda>i. if rangeCounter w \<le> i \<and> i < rangeCounter w + length rs
                             then rs ! (i - rangeCounter w) else rangeObjects w i),
       rangeCounter := rangeCounter w + length rs,
       selectionRanges := [rangeCounter w ..< rangeCounter w + length rs],
       selectionString := s\<rparr>"

definition adjust :: "nat \<Rightarrow> range_obj \<Rightarrow> jsstring \<Rightarrow> world \<Rightarrow> world" where
  "adjust i r s w =
     (if i < length (selectionRanges w)
      then w\<lparr>rangeObjects := (rangeObjects w)(selectionRanges w ! i := r),
             selectionString := s\<rparr>
      else w)"

definition mutate :: "node \<Rightarrow> (range_obj \<Rightarrow> range_obj) \<Rightarrow> world \<Rightarrow> world" where
  "mutate doc f w = w\<lparr>document := doc, rangeObjects := (\<lambda>i. f (rangeObjects w i))\<rparr>"

fun step :: "(nat \<Rightarrow> bool) \<Rightarrow> event \<Rightarrow> world \<Rightarrow> world" where
  "step P SelectionChange w = handleSelectionChange w"
| "step P (Click target) w =
     (case handleClickOutside target w of
        Inr w' \<Rightarrow> w'
      | Inl e \<Rightarrow> w\<lparr>uncaught := uncaught w @ [e]\<rparr>)"
| "step P Clear w = clearSelection w"
| "step P (Elapse d) w = elapse P d w"
| "step P (Select s rs) w = select s rs w"
| "step P (Adjust i r s) w = adjust i r s w"
| "step P (Mutate doc f) w = mutate doc f w"

definition run :: "(nat \<Rightarrow> bool) \<Rightarrow> event list \<Rightarrow> world \<Rightarrow> world" where
  "run P evs w = foldl (\<lambda>v e. step P e v) w evs"

definition no_range :: range_obj where
  "no_range = \<lparr>startContainer = [], startOffset = 0, endContainer = [], endOffset = 0,
     commonAncestorContainer = [],
     boundingClientRect = \<lparr>top' = 0, left = 0, right = 0, bottom = 0, width = 0, height = 0\<rparr>\<rparr>"

text \<open>The hook right after mounting in a page showing \<open>doc\<close>, with nothing selected.\<close>

definition init :: "node \<Rightarrow> world" where
  "init doc =
     \<lparr>document = doc, rangeObjects = (\<lambda>i. no_range), rangeCounter = 0,
      selectionRanges = [], selectionString = [], clock = 0, timers = [],
      timerCounter = 0, selection = emptySelection, selectionTimeoutRef = None,
      passes = 0, uncaught = []\<rparr>"


section \<open>JavaScript numbers\<close>

text \<open>
  A JavaScript number is an IEEE 754 binary64 value. The finite ones are modelled by the
  real numbers they denote. Every sum and difference of the source is the exact result
  rounded to the nearest binary64 value, ties to the even significand: \<open>exponent x\<close> is
  the binary exponent of \<open>x\<close> (that of the smallest normal number for subnormal \<open>x\<close>),
  the spacing of the binary64 values around \<open>x\<close> is \<open>2 powi (exponent x - 52)\<close>, and
  \<open>round64 x\<close> is the nearest multiple of that spacing. Comparisons are exact. The
  numbers that \<open>getBoundingClientRect\<close> and \<open>window.innerWidth\<close> report are finite, and
  adding the constants of the source to a finite binary64 value never reaches infinity.
\<close>

definition round_even :: "real \<Rightarrow> int" where
  "round_even q =
     (let f = \<lfloor>q\<rfloor>; r = q - of_int f
      in if r < 1 / 2 then f else if 1 / 2 < r then f + 1 else if even f then f else f + 1)"

definition exponent :: "real \<Rightarrow> int" where
  "exponent x = max \<lfloor>log 2 \<bar>x\<bar>\<rfloor> (- 1022)"

definition round64 :: "real \<Rightarrow> real" where
  "round64 x =
     (if x = 0 then 0
      else of_int (round_even (x / 2 powi (exponent x - 52))) * 2 powi (exponent x - 52))"

section \<open>The follow-up button\<close>

text \<open>
  The inline style of the button. \<open>top_px\<close> and \<open>left_px\<close> are the numbers that the
  source formats as \<open>`${top}px`\<close> and \<open>`${left}px`\<close>.
\<close>

record style =
  position :: string
  top_px :: real
  left_px :: real
  zIndex :: nat
  transform :: string

text \<open>
  The render function up to the style; \<open>None\<close> is the \<open>null\<close> returned when there is
  nothing to show. The first two arguments are \<open>window.innerWidth\<close> and
  \<open>window.innerHeight\<close>.
\<close>

definition FollowUpButton :: "real \<Rightarrow> real \<Rightarrow> SelectionState \<Rightarrow> style option" where
  "FollowUpButton innerWidth innerHeight sel =
     (if \<not> isValid sel then None
      else case boundingRect sel of
        None \<Rightarrow> None
      | Some br \<Rightarrow>
          let viewportWidth = innerWidth;
              viewportHeight = innerHeight;
              buttonWidth = 100;
              buttonHeight = 40;
              top0 = round64 (bottom br + 8);
              left0 = round64 (right br - 50);
              transform0 = ''translateX(-50%)'';
              (left1, transform1) =
                (if round64 (left0 - round64 (buttonWidth / 2)) < 0
                   then (left br, ''translateX(0)'')
                 else if round64 (left0 + round64 (buttonWidth / 2)) > viewportWidth
                   then (right br, ''translateX(-100%)'')
                 else (left0, transform0));
              top1 = (if round64 (top0 + buttonHeight) > viewportHeight
                      then round64 (round64 (top' br - buttonHeight) - 8) else top0)
          in Some \<lparr>position = ''fixed'', top_px = top1, left_px = left1, zIndex = 1000,
                    transform = transform1\<rparr>)"

text \<open>
  The anchor as the specification words it, in exact arithmetic: a vertical rule that
  reads only the top and bottom of the rectangle and the viewport height, and a
  horizontal rule that reads only its left and right and the viewport width.
\<close>

definition spec_vertical :: "real \<Rightarrow> real \<Rightarrow> real \<Rightarrow> real" where
  "spec_vertical H rect_top rect_bottom =
     (let t = rect_bottom + 8 in if t + 40 > H then rect_top - 48 else t)"

definition spec_horizontal :: "real \<Rightarrow> real \<Rightarrow> real \<Rightarrow> real \<times> string" where
  "spec_horizontal W rect_left rect_right =
     (let l = rect_right - 50 in
      if l - 50 < 0 then (rect_left, ''translateX(0)'')
      else if l + 50 > W then (rect_right, ''translateX(-100%)'')
      else (l, ''translateX(-50%)''))"

text \<open>
  The same two rules with every sum and difference rounded to binary64, and the flipped
  top obtained by two subtractions, each rounded.
\<close>

definition spec_vertical64 :: "real \<Rightarrow> real \<Rightarrow> real \<Rightarrow> real" where
  "spec_vertical64 H rect_top rect_bottom =
     (let t = round64 (rect_bottom + 8)
      in if round64 (t + 40) > H then round64 (round64 (rect_top - 40) - 8) else t)"

definition spec_horizontal64 :: "real \<Rightarrow> real \<Rightarrow> real \<Rightarrow> real \<times> string" where
  "spec_horizontal64 W rect_left rect_right =
     (let l = round64 (rect_right - 50) in
      if round64 (l - 50) < 0 then (rect_left, ''translateX(0)'')
      else if round64 (l + 50) > W then (rect_right, ''translateX(-100%)'')
      else (l, ''translateX(-50%)''))"

text \<open>
  Coordinates on the grid of \<open>1 / 2 ^ k\<close> pixels, of magnitude at most \<open>2 ^ 52\<close> grid
  steps: whole pixels for \<open>k = 0\<close>, sixty-fourths of a pixel for \<open>k = 6\<close>.
\<close>

definition on_grid :: "nat \<Rightarrow> real \<Rightarrow> bool" where
  "on_grid k x = (of_int \<lfloor>x * 2 ^ k\<rfloor> = x * 2 ^ k \<and> \<bar>x\<bar> * 2 ^ k \<le> 2 ^ 52)"

subsection \<open>Activation\<close>

text \<open>
  \<open>handleClick\<close> calls into the page: \<open>window.dispatchEvent\<close> with a new
  \<open>CustomEvent\<close>, \<open>document.querySelector\<close> for the text area, its \<open>focus\<close> and
  \<open>setSelectionRange\<close>, and the callback \<open>onFollowUp\<close>. What each of them does when
  called is given by the environment: \<open>None\<close> is a normal return, \<open>Some e\<close> throws
  \<open>e\<close>. \<open>PROMPT_INPUT_EVENT\<close> is imported from the prompt input component;
  \<open>onFollowUp = None\<close> is a button without the callback.
\<close>

record activation =
  PROMPT_INPUT_EVENT :: string
  dispatchEvent_result :: "error option"
  textarea_found :: bool
  focus_result :: "error option"
  setSelectionRange_result :: "error option"
  onFollowUp :: "error option option"

text \<open>
  What a click leaves behind: the events dispatched (type and detail), whether the text
  area was focused, the callbacks handed to \<open>setTimeout(\<dots>, 0)\<close> (the two arguments of
  the \<open>setSelectionRange\<close> call each will make), whether \<open>onFollowUp\<close> returned, and
  the errors written with \<open>console.error\<close>.
\<close>

record effects =
  dispatched :: "(string \<times> jsstring) list"
  focused :: bool
  deferred :: "(nat \<times> nat) list"
  completed :: bool
  console_error :: "error list"

definition no_effects :: effects where
  "no_effects = \<lparr>dispatched = [], focused = False, deferred = [], completed = False,
     console_error = []\<rparr>"

definition followUpText :: "SelectionState \<Rightarrow> jsstring" where
  \<open>followUpText sel = js ''Follow up on: "'' @ text' sel @ js ''"''\<close>

text \<open>
  The body of the \<open>try\<close> block: the exception that ended it, if any, and the effects up
  to that point.
\<close>

definition try_block :: "activation \<Rightarrow> SelectionState \<Rightarrow> error option \<times> effects" where
  "try_block env sel =
     (case dispatchEvent_result env of
        Some e \<Rightarrow> (Some e, no_effects)
      | None \<Rightarrow>
          let fx1 = no_effects\<lparr>dispatched := [(PROMPT_INPUT_EVENT env, followUpText sel)]\<rparr>;
              (thrown, fx2) =
                (if textarea_found env then
                   (case focus_result env of
                      Some e \<Rightarrow> (Some e, fx1)
                    | None \<Rightarrow>
                        (None, fx1\<lparr>focused := True,
                           deferred := [(length (followUpText sel),
                                         length (followUpText sel))]\<rparr>))
                 else (None, fx1))
          in case thrown of
               Some e \<Rightarrow> (Some e, fx2)
             | None \<Rightarrow>
                 (case onFollowUp env of
                    None \<Rightarrow> (None, fx2)
                  | Some (Some e) \<Rightarrow> (Some e, fx2)
                  | Some None \<Rightarrow> (None, fx2\<lparr>completed := True\<rparr>)))"

text \<open>
  \<open>handleClick\<close>: the \<open>try\<close> block with its \<open>catch\<close>. The first component is the
  exception that leaves the handler.
\<close>

definition handleClick :: "activation \<Rightarrow> SelectionState \<Rightarrow> error option \<times> effects" where
  "handleClick env sel =
     (case try_block env sel of
        (None, fx) \<Rightarrow> (None, fx)
      | (Some e, fx) \<Rightarrow> (None, fx\<lparr>console_error := console_error fx @ [e]\<rparr>))"

text \<open>
  A deferred callback runs as a timer task of its own, after \<open>handleClick\<close> has
  returned: \<open>textarea.setSelectionRange(a, b)\<close>. Its result is the exception it throws.
\<close>

definition run_deferred :: "activation \<Rightarrow> nat \<times> nat \<Rightarrow> error option" where
  "run_deferred env task = setSelectionRange_result env"

section \<open>Notions used in the statements\<close>

text \<open>
  The two shapes a stored state can have: the empty state, or a valid state whose text
  has passed the content rules and whose range and rectangle are present.
\<close>

definition settled :: "(nat \<Rightarrow> bool) \<Rightarrow> SelectionState \<Rightarrow> bool" where
  "settled P s =
     (s = emptySelection \<or>
      (isValid s \<and> range' s \<noteq> None \<and> boundingRect s \<noteq> None \<and> trim (text' s) = text' s
       \<and> 5 \<le> length (text' s) \<and> \<not> only_space_or_punct P (text' s)))"

text \<open>
  The nearest assistant message of a boundary node, as the validator finds it: the node
  or, for a text node, its parent element, and from there \<open>closest\<close>.
\<close>

definition resolve :: "node \<Rightarrow> node_ref \<Rightarrow> error + node_ref option" where
  "resolve doc c = bind (element_of doc c) (call_closest assistant doc)"

text \<open>The first exception raised while \<open>handleClick\<close> itself runs, if any.\<close>

definition sync_error :: "activation \<Rightarrow> error option" where
  "sync_error env =
     (case dispatchEvent_result env of
        Some e \<Rightarrow> Some e
      | None \<Rightarrow>
          (case (if textarea_found env then focus_result env else None) of
             Some e \<Rightarrow> Some e
           | None \<Rightarrow> (case onFollowUp env of Some (Some e) \<Rightarrow> Some e | _ \<Rightarrow> None)))"

text \<open>
  Kinds of events: those of the browser, which run no code of the hook (changes of the
  live selection and mutations of the document), and among them the mutations of the
  document.
\<close>

fun browser_event :: "event \<Rightarrow> bool" where
  "browser_event (Select s rs) = True"
| "browser_event (Adjust i r s) = True"
| "browser_event (Mutate doc f) = True"
| "browser_event e = False"

fun dom_mutation :: "event \<Rightarrow> bool" where
  "dom_mutation (Mutate doc f) = True"
| "dom_mutation e = False"

text \<open>
  A burst of notifications: each one is preceded by whatever the browser did to the
  selection and the document, and followed by a pause. The burst is quick when every
  pause is shorter than the delay of the debounce.
\<close>

definition notifications :: "(event list \<times> nat) list \<Rightarrow> event list" where
  "notifications bs = concat (map (\<lambda>(env, gap). env @ [SelectionChange, Elapse gap]) bs)"

definition quick :: "(event list \<times> nat) list \<Rightarrow> bool" where
  "quick bs = list_all (\<lambda>(env, gap). gap < 100 \<and> list_all browser_event env) bs"

text \<open>Every pending timer is the one whose handle \<open>selectionTimeoutRef\<close> holds.\<close>

definition pending :: "world \<Rightarrow> bool" where
  "pending w = list_all (\<lambda>(i, dl). i \<noteq> 0 \<and> selectionTimeoutRef w = Some i) (timers w)"

definition level :: "world \<Rightarrow> world \<Rightarrow> bool" where
  "level w0 w = (pending w \<and> selection w = selection w0 \<and> passes w = passes w0)"

text \<open>
  The ranges of the live selection are allocated objects; the object \<open>c\<close> is allocated
  and is none of them; the range of the stored state is such an object.
\<close>

definition own_ranges :: "world \<Rightarrow> bool" where
  "own_ranges w = list_all (\<lambda>r. r < rangeCounter w) (selectionRanges w)"

definition apart :: "nat \<Rightarrow> world \<Rightarrow> bool" where
  "apart c w = (own_ranges w \<and> c < rangeCounter w \<and> c \<notin> set (selectionRanges w))"

definition kept_apart :: "world \<Rightarrow> bool" where
  "kept_apart w =
     (own_ranges w \<and> (case range' (selection w) of None \<Rightarrow> True | Some c \<Rightarrow> apart c w))"

section \<open>Example data\<close>

text \<open>
  A page with a finished assistant message (a paragraph with one text node), an
  assistant message that is still streaming, a user message, the follow-up button and a
  second finished assistant message.
\<close>

definition page :: node where
  "page =
     Node DOCUMENT_NODE [] []
       [Node ELEMENT_NODE [] []
          [Node ELEMENT_NODE [(''data-message-role'', ''assistant'')] []
             [Node ELEMENT_NODE [] [] [Node TEXT_NODE [] [] []]],
           Node ELEMENT_NODE [(''data-message-role'', ''assistant'')] []
             [Node TEXT_NODE [] [] [], Node ELEMENT_NODE [] [''dot-falling''] []],
           Node ELEMENT_NODE [(''data-message-role'', ''user'')] []
             [Node TEXT_NODE [] [] []],
           Node ELEMENT_NODE [(''data-followup-button'', ''true'')] [] [],
           Node ELEMENT_NODE [(''data-message-role'', ''assistant'')] []
             [Node TEXT_NODE [] [] []]]]"

text \<open>The same page after the text node of the first message has been removed.\<close>

definition page_rerendered :: node where
  "page_rerendered =
     Node DOCUMENT_NODE [] []
       [Node ELEMENT_NODE [] []
          [Node ELEMENT_NODE [(''data-message-role'', ''assistant'')] []
             [Node ELEMENT_NODE [] [] []],
           Node ELEMENT_NODE [(''data-message-role'', ''assistant'')] []
             [Node TEXT_NODE [] [] [], Node ELEMENT_NODE [] [''dot-falling''] []],
           Node ELEMENT_NODE [(''data-message-role'', ''user'')] []
             [Node TEXT_NODE [] [] []],
           Node ELEMENT_NODE [(''data-followup-button'', ''true'')] [] [],
           Node ELEMENT_NODE [(''data-message-role'', ''assistant'')] []
             [Node TEXT_NODE [] [] []]]]"

text \<open>The same page after the first message has started streaming again.\<close>

definition page_streaming :: node where
  "page_streaming =
     Node DOCUMENT_NODE [] []
       [Node ELEMENT_NODE [] []
          [Node ELEMENT_NODE [(''data-message-role'', ''assistant'')] []
             [Node ELEMENT_NODE [] [] [Node TEXT_NODE [] [] []],
              Node ELEMENT_NODE [] [''dot-falling''] []],
           Node ELEMENT_NODE [(''data-message-role'', ''assistant'')] []
             [Node TEXT_NODE [] [] [], Node ELEMENT_NODE [] [''dot-falling''] []],
           Node ELEMENT_NODE [(''data-message-role'', ''user'')] []
             [Node TEXT_NODE [] [] []],
           Node ELEMENT_NODE [(''data-followup-button'', ''true'')] [] [],
           Node ELEMENT_NODE [(''data-message-role'', ''assistant'')] []
             [Node TEXT_NODE [] [] []]]]"





text \<open>
  What the removal of the only child at position \<open>p\<close> does to a \<open>Range\<close> object, after
  the rule of the DOM standard for live ranges: a boundary point inside the removed
  subtree moves to the place of the removed node in its parent.
\<close>

definition after_removal :: "node_ref \<Rightarrow> range_obj \<Rightarrow> range_obj" where
  "after_removal p r =
     (let inner = (\<lambda>c. take (length p) c = p);
          s = (if inner (startContainer r) then (butlast p, last p)
               else (startContainer r, startOffset r));
          e = (if inner (endContainer r) then (butlast p, last p)
               else (endContainer r, endOffset r))
      in r\<lparr>startContainer := fst s, startOffset := snd s,
            endContainer := fst e, endOffset := snd e,
            commonAncestorContainer :=
              (if inner (commonAncestorContainer r) then butlast p
               else commonAncestorContainer r)\<rparr>)"

definition box :: rect where
  "box = \<lparr>top' = 700, left = 900, right = 950, bottom = 720, width = 50, height = 20\<rparr>"

definition corner :: rect where
  "corner = \<lparr>top' = 10, left = 0, right = 30, bottom = 30, width = 30, height = 20\<rparr>"

text \<open>
  A rectangle whose bottom is a binary64 value just above 1016, and one far away,
  where neighbouring binary64 values are 32 apart.
\<close>

definition fine :: rect where
  "fine = \<lparr>top' = 1000, left = 300, right = 400, bottom = 1016 + 1 / 2 ^ 43, width = 100,
     height = 16 + 1 / 2 ^ 43\<rparr>"

definition far :: rect where
  "far = \<lparr>top' = 2 ^ 57 + 64, left = 300, right = 400, bottom = 2 ^ 57 + 128, width = 100,
     height = 64\<rparr>"

text \<open>A range with both boundary points in the node \<open>p\<close>.\<close>

definition inside :: "node_ref \<Rightarrow> range_obj" where
  "inside p = \<lparr>startContainer = p, startOffset = 0, endContainer = p, endOffset = 11,
     commonAncestorContainer = p, boundingClientRect = box\<rparr>"

text \<open>A valid state with the rectangle \<open>r\<close>.\<close>

definition shown :: "rect \<Rightarrow> SelectionState" where
  "shown r =
     \<lparr>text' = js ''selected text'', isValid = True, range' = Some 1, boundingRect = Some r\<rparr>"

text \<open>A page in which every call of \<open>handleClick\<close> succeeds.\<close>

definition calm :: activation where
  "calm = \<lparr>PROMPT_INPUT_EVENT = ''set_prompt_input'', dispatchEvent_result = None,
     textarea_found = True, focus_result = None, setSelectionRange_result = None,
     onFollowUp = Some None\<rparr>"

text \<open>Selecting text in the first assistant message and waiting for the debounce.\<close>

definition demo :: "event list" where
  "demo = [Select (js ''  hello world '') [inside [0, 0, 0, 0]], SelectionChange, Elapse 100]"

section \<open>Evaluating the examples\<close>

lemmas dom_defs =
  page_def page_streaming_def page_rerendered_def inside_def box_def
  element_of_def call_closest_def parentElement_def is_element_def assistant_def followup_def
  dot_falling_def matches_def matches_node_def querySelector_def resolve_def bind_def

lemmas text_defs =
  js_def trim_def ws_unit_def is_whitespace_def only_space_or_punct_def ascii_punct_def
  is_lead_def is_trail_def

lemmas run_defs =
  run_def init_def select_def adjust_def mutate_def handleSelectionChange_def setTimeout_def
  clearTimeout_def clearSelection_def removeAllRanges_def elapse_def due_def fire_def
  runCallback_def onTimeout_def getRangeAt_def cloneRange_def setSelection_def
  emptySelection_def bind_def Let_def

lemma run_append: "run P (xs @ ys) w = run P ys (run P xs w)"
  by (simp add: run_def)

lemma run_Nil: "run P [] w = w"
  by (simp add: run_def)

lemma run_Cons: "run P (e # es) w = run P es (step P e w)"
  by (simp add: run_def)

lemma page_valid:
  "validateSelection ascii_punct page (js ''  hello world '') (Some (inside [0, 0, 0, 0]))
     = Inr True"
  by (simp add: validateSelection_def dom_defs text_defs)

lemma page_throws:
  "validateSelection ascii_punct page (js ''hello world'') (Some (inside [])) = Inl TypeError"
  by (simp add: validateSelection_def dom_defs text_defs)

lemma page_run_valid:
  "selection (run ascii_punct demo (init page))
   = \<lparr>text' = js ''hello world'', isValid = True, range' = Some 1, boundingRect = Some box\<rparr>"
  by (simp add: demo_def run_defs page_valid) (simp add: text_defs box_def inside_def)

lemma page_run_clone: "rangeObjects (run ascii_punct demo (init page)) 1 = inside [0, 0, 0, 0]"
  by (simp add: demo_def run_defs page_valid) (simp add: text_defs)

section \<open>The validator's content rules\<close>

lemma validate_content:
  "validateSelection P doc t rng = Inr True \<Longrightarrow>
     5 \<le> length (trim t) \<and> \<not> only_space_or_punct P (trim t)"
  by (auto simp: validateSelection_def Let_def split: option.splits if_splits)

text \<open>
  C9. A text whose trimmed form has fewer than five code units, or whose trimmed form
  consists of white space and punctuation only, is rejected: the validator returns
  \<open>false\<close> for every document and every range, absent ranges included, and does so
  without looking at the document.
\<close>

theorem content_rejection:
  "length (trim t) < 5 \<or> only_space_or_punct P (trim t) \<Longrightarrow>
     validateSelection P doc t rng = Inr False"
  by (auto simp: validateSelection_def Let_def split: option.splits)

theorem content_rejection_witness:
  "(length (trim (js '' ..., !!! '')) < 5 \<or>
      only_space_or_punct ascii_punct (trim (js '' ..., !!! '')))
   \<and> validateSelection ascii_punct page (js '' ..., !!! '') (Some (inside [0, 0, 0, 0]))
       = Inr False
   \<and> (length (trim (js '' hi  '')) < 5 \<or> only_space_or_punct ascii_punct (trim (js '' hi  '')))
   \<and> validateSelection ascii_punct page (js '' hi  '') (Some (inside [0, 0, 0, 0]))
       = Inr False"
proof -
  have long: "only_space_or_punct ascii_punct (trim (js '' ..., !!! ''))"
    by (simp add: text_defs)
  have short: "length (trim (js '' hi  '')) < 5"
    by (simp add: text_defs)
  from long short
    content_rejection [of "js '' ..., !!! ''" ascii_punct page "Some (inside [0, 0, 0, 0])"]
    content_rejection [of "js '' hi  ''" ascii_punct page "Some (inside [0, 0, 0, 0])"]
  show ?thesis by blast
qed

section \<open>Trimming twice\<close>

lemma strip_both_idem:
  fixes p :: "'a \<Rightarrow> bool"
  defines "strip \<equiv> \<lambda>s. rev (dropWhile p (rev (dropWhile p s)))"
  shows "strip (strip s) = strip s"
proof -
  define a where "a = dropWhile p s"
  define b where "b = dropWhile p (rev a)"
  have b_fix: "dropWhile p b = b"
    by (simp add: b_def)
  have front: "dropWhile p (rev b) = rev b"
  proof (cases "b = []")
    case True
    then show ?thesis by simp
  next
    case False
    have "rev a = takeWhile p (rev a) @ b"
      by (simp add: b_def)
    then have "a = rev b @ rev (takeWhile p (rev a))"
      by (metis rev_append rev_rev_ident)
    with False have hd_eq: "hd (rev b) = hd a" and a_ne: "a \<noteq> []"
      by (metis hd_append2 rev_is_Nil_conv, metis append_is_Nil_conv rev_is_Nil_conv)
    from a_ne have "\<not> p (hd a)"
      unfolding a_def by (rule hd_dropWhile)
    with hd_eq show ?thesis
      by (simp add: dropWhile_eq_self_iff)
  qed
  show ?thesis
    unfolding strip_def a_def [symmetric] b_def [symmetric]
    by (simp add: front b_fix)
qed

lemma trim_idem: "trim (trim s) = trim s"
  unfolding trim_def by (rule strip_both_idem)

section \<open>Every stored state is settled\<close>

lemma settled_empty: "settled P emptySelection"
  by (simp add: settled_def)

lemma onTimeout_settled:
  assumes "onTimeout P w = Inr w'"
  shows "settled P (selection w')"
  using assms validate_content [of P "document w" "selectionString w"]
  by (auto simp: onTimeout_def Let_def bind_def getRangeAt_def setSelection_def cloneRange_def
      settled_def trim_idem split: if_splits sum.splits)

lemma runCallback_settled:
  "settled P (selection w) \<Longrightarrow> settled P (selection (runCallback P w))"
proof (cases "onTimeout P (w\<lparr>passes := Suc (passes w)\<rparr>)")
  case (Inl e)
  assume "settled P (selection w)"
  with Inl show ?thesis by (simp add: runCallback_def Let_def)
next
  case (Inr w')
  then show ?thesis
    using onTimeout_settled [OF Inr] by (simp add: runCallback_def Let_def)
qed

lemma fire_settled: "settled P (selection w) \<Longrightarrow> settled P (selection (fire P x w))"
  unfolding fire_def by (rule runCallback_settled) simp

lemma fires_settled:
  "settled P (selection w) \<Longrightarrow> settled P (selection (foldl (\<lambda>v x. fire P x v) w xs))"
  by (induction xs arbitrary: w) (simp_all add: fire_settled)

lemma step_settled: "settled P (selection w) \<Longrightarrow> settled P (selection (step P e w))"
proof (cases e)
  case (Click target)
  assume "settled P (selection w)"
  then show ?thesis
    by (auto simp: Click handleClickOutside_def bind_def setSelection_def settled_empty
        split: sum.splits if_splits)
next
  case (Elapse d)
  assume "settled P (selection w)"
  then show ?thesis
    by (simp add: Elapse elapse_def Let_def fires_settled)
qed (auto simp: handleSelectionChange_def setTimeout_def clearTimeout_def clearSelection_def
      setSelection_def settled_empty select_def adjust_def mutate_def Let_def split: option.splits)

lemma run_settled: "settled P (selection w) \<Longrightarrow> settled P (selection (run P evs w))"
  unfolding run_def by (induction evs arbitrary: w) (simp_all add: step_settled)

lemma reachable_settled: "settled P (selection (run P evs (init doc)))"
  by (rule run_settled) (simp add: init_def settled_empty)

text \<open>
  C1. In every state the tracker ever stores, that is, in the state after any sequence of
  events from the mounted hook (the initial state is the empty sequence), \<open>isValid\<close> is true
  exactly when the text is not empty and neither the range nor the rectangle is \<open>null\<close>.
  Each transition writes the whole record: the state is either the empty state, with all
  four fields empty, or a valid state with all four fields set, and never a mixture such
  as a text that is not empty with \<open>isValid\<close> false.
\<close>

theorem selection_state_consistent:
  "isValid (selection (run P evs (init doc))) =
     (text' (selection (run P evs (init doc))) \<noteq> []
      \<and> range' (selection (run P evs (init doc))) \<noteq> None
      \<and> boundingRect (selection (run P evs (init doc))) \<noteq> None)
   \<and> (selection (run P evs (init doc))
         = \<lparr>text' = [], isValid = False, range' = None, boundingRect = None\<rparr>
       \<or> (isValid (selection (run P evs (init doc)))
          \<and> text' (selection (run P evs (init doc))) \<noteq> []
          \<and> range' (selection (run P evs (init doc))) \<noteq> None
          \<and> boundingRect (selection (run P evs (init doc))) \<noteq> None))"
  using reachable_settled [of P evs doc]
  by (auto simp: settled_def emptySelection_def)

text \<open>
  C10. Whenever the stored state is valid, its text is already trimmed, has at least five
  code units, and contains a code point that is neither white space nor punctuation.
\<close>

theorem valid_text_is_trimmed_content:
  assumes "isValid (selection (run P evs (init doc)))"
  shows "trim (text' (selection (run P evs (init doc)))) = text' (selection (run P evs (init doc)))
    \<and> 5 \<le> length (text' (selection (run P evs (init doc))))
    \<and> (\<exists>c \<in> set (code_points (text' (selection (run P evs (init doc))))).
          \<not> is_whitespace c \<and> \<not> P c)"
  using assms reachable_settled [of P evs doc]
  by (auto simp: settled_def emptySelection_def only_space_or_punct_def list_all_iff)

theorem valid_text_is_trimmed_content_witness:
  "isValid (selection (run ascii_punct
      [Select (js ''  hello world '') [inside [0, 0, 0, 0]], SelectionChange, Elapse 100]
      (init page)))
   \<and> text' (selection (run ascii_punct
      [Select (js ''  hello world '') [inside [0, 0, 0, 0]], SelectionChange, Elapse 100]
      (init page))) = js ''hello world''
   \<and> trim (js ''hello world'') = js ''hello world''
   \<and> 5 \<le> length (js ''hello world'')
   \<and> (\<exists>c \<in> set (code_points (js ''hello world'')). \<not> is_whitespace c \<and> \<not> ascii_punct c)"
  using valid_text_is_trimmed_content [of ascii_punct
      "[Select (js ''  hello world '') [inside [0, 0, 0, 0]], SelectionChange, Elapse 100]" page]
  by (simp add: page_run_valid [unfolded demo_def])

section \<open>Exceptions in the handlers\<close>

text \<open>
  C2. The claim is that no handler of the tracker ever throws. The code does throw: when
  the common ancestor of the selected range is the document node, which is neither a text
  node nor an element, the debounced callback calls the missing method \<open>closest\<close> on it.
  The \<open>TypeError\<close> leaves the timer callback, and the stored state is not updated.
\<close>

theorem document_container_throws:
  "uncaught (run ascii_punct
      [Select (js ''hello world'') [inside []], SelectionChange, Elapse 100] (init page))
   = [TypeError]"
  by (simp add: run_defs page_throws) (simp add: js_def)

section \<open>Selections that span messages\<close>




section \<open>Clearing\<close>

text \<open>
  C8. After \<open>clearSelection\<close> the state is the empty state and the live selection has no
  range, whatever the state was before; clearing a second time changes nothing.
\<close>

theorem clear_idempotent:
  "selection (clearSelection w)
     = \<lparr>text' = [], isValid = False, range' = None, boundingRect = None\<rparr>
   \<and> length (selectionRanges (clearSelection w)) = 0
   \<and> clearSelection (clearSelection w) = clearSelection w"
  by (simp add: clearSelection_def setSelection_def removeAllRanges_def emptySelection_def)

section \<open>Rounding to binary64\<close>

lemma round_even_int: "round_even (of_int j) = j"
  by (simp add: round_even_def)

lemma two_powr_int: "2 powr (of_int e) = (2::real) powi e"
  by (simp add: powr_real_of_int')

lemma exponent_eq:
  assumes "2 powi e \<le> \<bar>x\<bar>" and "\<bar>x\<bar> < 2 powi (e + 1)" and "- 1022 \<le> e"
  shows "exponent x = e"
proof -
  have pos: "0 < \<bar>x\<bar>"
    using assms(1) by (smt (verit) zero_less_power_int)
  have "2 powr (of_int e) \<le> \<bar>x\<bar>" and "\<bar>x\<bar> < 2 powr (of_int (e + 1))"
    using assms(1,2) by (simp_all only: two_powr_int)
  then have "\<lfloor>log 2 \<bar>x\<bar>\<rfloor> = e"
    using pos by (simp add: floor_log_eq_powr_iff)
  with assms(3) show ?thesis
    by (simp add: exponent_def)
qed

lemma round64_at:
  assumes "2 powi e \<le> \<bar>x\<bar>" and "\<bar>x\<bar> < 2 powi (e + 1)" and "- 1022 \<le> e"
  shows "round64 x = of_int (round_even (x / 2 powi (e - 52))) * 2 powi (e - 52)"
proof -
  have "x \<noteq> 0"
    using assms(1) by (smt (verit) zero_less_power_int)
  then show ?thesis
    by (simp add: round64_def exponent_eq [OF assms])
qed

text \<open>A binary fraction with a significand of at most 53 bits is a binary64 value.\<close>

lemma round64_dyadic:
  assumes "\<bar>n\<bar> < 2 ^ 53" and "k \<le> 1022"
  shows "round64 (of_int n / 2 ^ k) = of_int n / 2 ^ k"
proof (cases "n = 0")
  case True
  then show ?thesis by (simp add: round64_def)
next
  case False
  define x :: real where "x = of_int n / 2 ^ k"
  have x0: "x \<noteq> 0"
    using False by (simp add: x_def)
  have absx: "\<bar>x\<bar> = of_int \<bar>n\<bar> / 2 ^ k"
    by (simp add: x_def abs_divide)
  have "1 \<le> \<bar>n\<bar>" using False by simp
  then have "(1::real) \<le> of_int \<bar>n\<bar>"
    using of_int_le_iff [of 1 "\<bar>n\<bar>", where 'a = real] by simp
  then have "1 / 2 ^ k \<le> \<bar>x\<bar>"
    unfolding absx by (intro divide_right_mono) simp_all
  moreover have "2 powr (of_int (- int k)) = 1 / (2::real) ^ k"
    by (simp only: two_powr_int) (simp add: power_int_minus field_simps)
  ultimately have lo: "2 powr (of_int (- int k)) \<le> \<bar>x\<bar>"
    by simp
  have "real_of_int \<bar>n\<bar> < 2 ^ 53"
    using assms(1) of_int_less_iff [of "\<bar>n\<bar>" "2 ^ 53", where 'a = real] by simp
  then have "\<bar>x\<bar> < 2 ^ 53 / 2 ^ k"
    unfolding absx by (intro divide_strict_right_mono) simp_all
  moreover have "2 powr (of_int (53 - int k)) = 2 ^ 53 / (2::real) ^ k"
    by (simp only: two_powr_int) (simp add: power_int_diff)
  ultimately have hi: "\<bar>x\<bar> < 2 powr (of_int (53 - int k))"
    by simp
  define e where "e = \<lfloor>log 2 \<bar>x\<bar>\<rfloor>"
  have e_lo: "- int k \<le> e"
    unfolding e_def using lo x0 by (simp add: le_floor_iff le_log_iff)
  have e_hi: "e < 53 - int k"
    unfolding e_def using hi x0 by (simp add: floor_less_iff log_less_iff)
  have ex: "exponent x = e"
    using e_lo assms(2) by (simp add: exponent_def e_def)
  define m where "m = nat (52 - int k - e)"
  have em: "e - 52 = - int (k + m)"
    using e_hi by (simp add: m_def)
  have u: "(2::real) powi (e - 52) = 1 / (2 ^ k * 2 ^ m)"
    by (simp add: em power_int_minus power_add field_simps del: of_nat_add)
  have q: "x / 2 powi (e - 52) = of_int (n * 2 ^ m)"
    by (simp add: u x_def)
  have "round64 x = of_int (round_even (x / 2 powi (e - 52))) * 2 powi (e - 52)"
    using x0 by (simp add: round64_def ex)
  also have "\<dots> = of_int (n * 2 ^ m) * 2 powi (e - 52)"
    by (simp only: q round_even_int)
  also have "\<dots> = x"
    by (simp add: u x_def)
  finally show ?thesis by (simp add: x_def)
qed

lemma round64_int: "\<bar>n\<bar> < 2 ^ 53 \<Longrightarrow> round64 (of_int n) = of_int n"
  using round64_dyadic [of n 0] by simp

lemma round64_numeral: "numeral w < (2::int) ^ 53 \<Longrightarrow> round64 (numeral w) = numeral w"
  using round64_int [of "numeral w"] by simp

text \<open>
  On a grid of at most \<open>2 ^ 40\<close> steps to the pixel, adding a whole number of at most
  100 pixels is exact.
\<close>

lemma round64_grid:
  assumes "on_grid k x" and "k \<le> 40" and "\<bar>c\<bar> \<le> 100"
  shows "round64 (x + of_int c) = x + of_int c"
proof -
  define n where "n = \<lfloor>x * 2 ^ k\<rfloor>"
  from assms(1) have n: "of_int n = x * 2 ^ k" and b: "\<bar>x\<bar> * 2 ^ k \<le> 2 ^ 52"
    by (simp_all add: on_grid_def n_def)
  have "\<bar>real_of_int n\<bar> \<le> 2 ^ 52"
    using b by (simp add: n abs_mult)
  then have nb: "\<bar>n\<bar> \<le> 2 ^ 52"
    using of_int_le_iff [of "\<bar>n\<bar>" "2 ^ 52", where 'a = real] by simp
  have "(2::int) ^ k \<le> 2 ^ 40"
    using assms(2) by (intro power_increasing) simp_all
  then have "\<bar>c\<bar> * 2 ^ k \<le> 100 * 2 ^ 40"
    using assms(3) by (intro mult_mono) simp_all
  then have "\<bar>c * 2 ^ k\<bar> \<le> 100 * 2 ^ 40"
    by (simp add: abs_mult)
  with nb have "\<bar>n + c * 2 ^ k\<bar> < 2 ^ 53"
    by simp
  moreover have "k \<le> 1022"
    using assms(2) by simp
  ultimately have "round64 (of_int (n + c * 2 ^ k) / 2 ^ k) = of_int (n + c * 2 ^ k) / 2 ^ k"
    by (rule round64_dyadic)
  moreover have "real_of_int (n + c * 2 ^ k) / 2 ^ k = x + of_int c"
    by (simp add: n field_simps)
  ultimately show ?thesis by simp
qed

lemma round64_grid_steps:
  assumes "on_grid k x" and "k \<le> 40"
  shows "round64 (x + 8) = x + 8" and "round64 (x + 8 + 40) = x + 8 + 40"
    and "round64 (x - 40) = x - 40" and "round64 (x - 40 - 8) = x - 40 - 8"
    and "round64 (x - 50) = x - 50" and "round64 (x - 50 - 50) = x - 50 - 50"
    and "round64 (x - 50 + 50) = x - 50 + 50"
proof -
  note g = round64_grid [OF assms]
  have e: "x + 8 = x + of_int 8" "x + 8 + 40 = x + of_int 48" "x - 40 = x + of_int (- 40)"
    "x - 40 - 8 = x + of_int (- 48)" "x - 50 = x + of_int (- 50)"
    "x - 50 - 50 = x + of_int (- 100)" "x - 50 + 50 = x + of_int 0"
    by simp_all
  show "round64 (x + 8) = x + 8"
    unfolding e(1) by (rule g) simp
  show "round64 (x + 8 + 40) = x + 8 + 40"
    unfolding e(2) by (rule g) simp
  show "round64 (x - 40) = x - 40"
    unfolding e(3) by (rule g) simp
  show "round64 (x - 40 - 8) = x - 40 - 8"
    unfolding e(4) by (rule g) simp
  show "round64 (x - 50) = x - 50"
    unfolding e(5) by (rule g) simp
  show "round64 (x - 50 - 50) = x - 50 - 50"
    unfolding e(6) by (rule g) simp
  show "round64 (x - 50 + 50) = x - 50 + 50"
    unfolding e(7) by (rule g) simp
qed

section \<open>Position of the button\<close>

text \<open>
  C3, as stated, fails. The source computes in binary64, where a sum is rounded before
  it is compared. With a viewport 1064 high and the bottom of the rectangle just above
  1016, the sum of the bottom and 8 rounds to 1024 and 1024 + 40 is not greater than
  1064: the button stays below the selection at 1024, where the rule of the claim flips
  it to 952. And where the button is flipped, the top is the result of two subtractions,
  each rounded: for a rectangle far away the code gives \<open>2 ^ 57 + 32\<close>, where the top of
  the rectangle minus 48 is \<open>2 ^ 57 + 16\<close>, and \<open>2 ^ 57\<close> when rounded.
\<close>

theorem anchor_rounds_before_flip:
  "FollowUpButton 2000 1064 (shown fine) =
     Some \<lparr>position = ''fixed'', top_px = 1024, left_px = 350, zIndex = 1000,
           transform = ''translateX(-50%)''\<rparr>
   \<and> spec_vertical 1064 (top' fine) (bottom fine) = 952
   \<and> FollowUpButton 2000 1064 (shown far) =
     Some \<lparr>position = ''fixed'', top_px = 2 ^ 57 + 32, left_px = 350, zIndex = 1000,
           transform = ''translateX(-50%)''\<rparr>
   \<and> spec_vertical 1064 (top' far) (bottom far) = 2 ^ 57 + 16
   \<and> round64 (top' far - 48) = 2 ^ 57"
proof -
  have a: "round64 (1016 + 1 / 2 ^ 43 + 8) = 1024"
    by (simp add: round64_at [of 10] round_even_def)
  have b: "round64 (2 ^ 57 + 128 + 8) = 2 ^ 57 + 128"
    by (simp add: round64_at [of 57] round_even_def)
  have c: "round64 (2 ^ 57 + 128 + 40) = 2 ^ 57 + 160"
    by (simp add: round64_at [of 57] round_even_def)
  have d: "round64 (2 ^ 57 + 64 - 40) = 2 ^ 57 + 32"
    by (simp add: round64_at [of 57] round_even_def)
  have e: "round64 (2 ^ 57 + 32 - 8) = 2 ^ 57 + 32"
    by (simp add: round64_at [of 57] round_even_def)
  have f: "round64 (2 ^ 57 + 64 - 48) = 2 ^ 57"
    by (simp add: round64_at [of 57] round_even_def)
  have fine: "FollowUpButton 2000 1064 (shown fine) =
     Some \<lparr>position = ''fixed'', top_px = 1024, left_px = 350, zIndex = 1000,
           transform = ''translateX(-50%)''\<rparr>"
    using a by (simp add: FollowUpButton_def shown_def fine_def round64_numeral)
  have far: "FollowUpButton 2000 1064 (shown far) =
     Some \<lparr>position = ''fixed'', top_px = 2 ^ 57 + 32, left_px = 350, zIndex = 1000,
           transform = ''translateX(-50%)''\<rparr>"
    using b c d e by (simp add: FollowUpButton_def shown_def far_def round64_numeral)
  from fine far f show ?thesis
    by (simp add: spec_vertical_def fine_def far_def)
qed

text \<open>
  C3, amended. For a valid state with rectangle \<open>r\<close> the button is placed by the two
  rules of the specification computed in binary64: every sum and difference is rounded,
  and the flipped top is the top of \<open>r\<close> minus 40, rounded, minus 8, rounded. The
  vertical rule reads the top and bottom of \<open>r\<close> and the height of the viewport, the
  horizontal rule its left and right and the width of the viewport, and neither reads
  what the other computes. When the top, bottom and right of \<open>r\<close> lie on a grid of
  \<open>1 / 2 ^ k\<close> pixels with \<open>k \<le> 40\<close>, no rounding occurs and the anchor is the one of
  the rules in exact arithmetic.
\<close>

theorem anchor_position:
  assumes "isValid sel" and "boundingRect sel = Some r"
  shows "FollowUpButton W H sel =
      Some \<lparr>position = ''fixed'',
            top_px = spec_vertical64 H (top' r) (bottom r),
            left_px = fst (spec_horizontal64 W (left r) (right r)),
            zIndex = 1000,
            transform = snd (spec_horizontal64 W (left r) (right r))\<rparr>
    \<and> (k \<le> 40 \<and> on_grid k (top' r) \<and> on_grid k (bottom r) \<and> on_grid k (right r) \<longrightarrow>
        FollowUpButton W H sel =
          Some \<lparr>position = ''fixed'',
                top_px = spec_vertical H (top' r) (bottom r),
                left_px = fst (spec_horizontal W (left r) (right r)),
                zIndex = 1000,
                transform = snd (spec_horizontal W (left r) (right r))\<rparr>)"
proof -
  have rounded: "FollowUpButton W H sel =
      Some \<lparr>position = ''fixed'',
            top_px = spec_vertical64 H (top' r) (bottom r),
            left_px = fst (spec_horizontal64 W (left r) (right r)),
            zIndex = 1000,
            transform = snd (spec_horizontal64 W (left r) (right r))\<rparr>"
    using assms
    by (simp add: FollowUpButton_def spec_vertical64_def spec_horizontal64_def Let_def
        round64_numeral)
  have exact: "spec_vertical64 H (top' r) (bottom r) = spec_vertical H (top' r) (bottom r)
      \<and> spec_horizontal64 W (left r) (right r) = spec_horizontal W (left r) (right r)"
    if k: "k \<le> 40" and t: "on_grid k (top' r)" and b: "on_grid k (bottom r)"
      and g: "on_grid k (right r)"
  proof -
    note tb = round64_grid_steps [OF t k] round64_grid_steps [OF b k]
      round64_grid_steps [OF g k]
    show ?thesis
      unfolding spec_vertical64_def spec_horizontal64_def Let_def
      by (simp only: tb) (simp add: spec_vertical_def spec_horizontal_def Let_def)
  qed
  from rounded exact show ?thesis
    by simp
qed

text \<open>
  The two examples of the specification, in a viewport of 1000 by 800: whole pixels,
  which lie on the grid with \<open>k = 0\<close>.
\<close>

theorem anchor_position_witness:
  "FollowUpButton 1000 800 (shown box) =
     Some \<lparr>position = ''fixed'', top_px = 728, left_px = 900, zIndex = 1000,
           transform = ''translateX(-50%)''\<rparr>
   \<and> FollowUpButton 1000 800 (shown corner) =
     Some \<lparr>position = ''fixed'', top_px = 38, left_px = 0, zIndex = 1000,
           transform = ''translateX(0)''\<rparr>"
proof -
  have v: "isValid (shown box)" "isValid (shown corner)"
    and r: "boundingRect (shown box) = Some box" "boundingRect (shown corner) = Some corner"
    by (simp_all add: shown_def)
  have g: "(0::nat) \<le> 40 \<and> on_grid 0 (top' box) \<and> on_grid 0 (bottom box) \<and> on_grid 0 (right box)"
    and h: "(0::nat) \<le> 40 \<and> on_grid 0 (top' corner) \<and> on_grid 0 (bottom corner)
      \<and> on_grid 0 (right corner)"
    by (simp_all add: on_grid_def box_def corner_def)
  from anchor_position [OF v(1) r(1), where k = 0 and W = 1000 and H = 800] g
  have "FollowUpButton 1000 800 (shown box) =
      Some \<lparr>position = ''fixed'',
            top_px = spec_vertical 800 (top' box) (bottom box),
            left_px = fst (spec_horizontal 1000 (left box) (right box)),
            zIndex = 1000,
            transform = snd (spec_horizontal 1000 (left box) (right box))\<rparr>"
    by blast
  moreover from anchor_position [OF v(2) r(2), where k = 0 and W = 1000 and H = 800] h
  have "FollowUpButton 1000 800 (shown corner) =
      Some \<lparr>position = ''fixed'',
            top_px = spec_vertical 800 (top' corner) (bottom corner),
            left_px = fst (spec_horizontal 1000 (left corner) (right corner)),
            zIndex = 1000,
            transform = snd (spec_horizontal 1000 (left corner) (right corner))\<rparr>"
    by blast
  ultimately show ?thesis
    by (simp add: box_def corner_def spec_vertical_def spec_horizontal_def)
qed

section \<open>Activation\<close>

lemma payload: \<open>followUpText (shown box) = js ''Follow up on: "selected text"''\<close>
  by (simp add: followUpText_def shown_def js_def)

text \<open>
  C7, as stated, fails: the caret is placed by a callback handed to \<open>setTimeout\<close>, which
  runs after \<open>handleClick\<close> has returned and outside its \<open>try\<close> block. An exception
  raised there is not caught by the handler and nothing is logged.
\<close>

theorem caret_error_escapes:
  "deferred (snd (handleClick (calm\<lparr>setSelectionRange_result := Some TypeError\<rparr>) (shown box)))
     = [(29, 29)]
   \<and> run_deferred (calm\<lparr>setSelectionRange_result := Some TypeError\<rparr>) (29, 29)
     = Some TypeError
   \<and> console_error
       (snd (handleClick (calm\<lparr>setSelectionRange_result := Some TypeError\<rparr>) (shown box)))
     = []"
  by (simp add: handleClick_def try_block_def run_deferred_def calm_def no_effects_def payload
      Let_def) (simp add: js_def)

text \<open>
  C7, amended. No exception leaves \<open>handleClick\<close>. An exception raised while it runs, by
  the dispatch of the notification, by focusing the text area or by the completion hook,
  is logged, and it is the only thing logged. The payload dispatched is the text
  \<open>Follow up on: "\<close>, the selected text and \<open>"\<close>. The caret placement is deferred to a
  timer task, which is scheduled exactly when the dispatch and the focus succeeded.
\<close>

theorem activation_contained:
  \<open>fst (handleClick env sel) = None
   \<and> console_error (snd (handleClick env sel)) =
       (case sync_error env of None \<Rightarrow> [] | Some e \<Rightarrow> [e])
   \<and> dispatched (snd (handleClick env sel)) =
       (if dispatchEvent_result env = None
        then [(PROMPT_INPUT_EVENT env, js ''Follow up on: "'' @ text' sel @ js ''"'')]
        else [])
   \<and> deferred (snd (handleClick env sel)) =
       (if dispatchEvent_result env = None \<and> textarea_found env \<and> focus_result env = None
        then [(length (js ''Follow up on: "'' @ text' sel @ js ''"''),
               length (js ''Follow up on: "'' @ text' sel @ js ''"''))]
        else [])\<close>
  by (auto simp: handleClick_def try_block_def sync_error_def no_effects_def followUpText_def
      Let_def split: option.splits)

text \<open>A completion hook that throws: the error is logged, the payload is the literal.\<close>

theorem activation_contained_witness:
  \<open>handleClick (calm\<lparr>onFollowUp := Some (Some TypeError)\<rparr>) (shown box) =
     (None, \<lparr>dispatched = [(''set_prompt_input'', js ''Follow up on: "selected text"'')],
             focused = True, deferred = [(29, 29)], completed = False,
             console_error = [TypeError]\<rparr>)\<close>
proof -
  let ?env = "calm\<lparr>onFollowUp := Some (Some TypeError)\<rparr>"
  have "sync_error ?env = Some TypeError"
    by (simp add: sync_error_def calm_def)
  moreover have \<open>js ''Follow up on: "'' @ text' (shown box) @ js ''"''
      = js ''Follow up on: "selected text"''\<close>
    by (simp add: shown_def js_def)
  moreover have "focused (snd (handleClick ?env (shown box)))"
    "\<not> completed (snd (handleClick ?env (shown box)))"
    by (simp_all add: handleClick_def try_block_def calm_def no_effects_def Let_def)
  ultimately show ?thesis
    using activation_contained [of ?env "shown box"]
    by (cases "handleClick ?env (shown box)") (simp add: calm_def js_def effects.equality)
qed

section \<open>The debounce\<close>

lemma onTimeout_frame:
  assumes "onTimeout P w = Inr w'"
  shows "timers w' = timers w \<and> selectionTimeoutRef w' = selectionTimeoutRef w
     \<and> clock w' = clock w \<and> passes w' = passes w \<and> timerCounter w' = timerCounter w"
  using assms
  by (auto simp: onTimeout_def Let_def bind_def getRangeAt_def setSelection_def cloneRange_def
      split: if_splits sum.splits)

lemma runCallback_frame:
  "timers (runCallback P w) = timers w \<and> selectionTimeoutRef (runCallback P w) = selectionTimeoutRef w
     \<and> clock (runCallback P w) = clock w \<and> passes (runCallback P w) = Suc (passes w)"
proof (cases "onTimeout P (w\<lparr>passes := Suc (passes w)\<rparr>)")
  case (Inl e)
  then show ?thesis by (simp add: runCallback_def Let_def)
next
  case (Inr w')
  from onTimeout_frame [OF Inr] Inr show ?thesis by (simp add: runCallback_def Let_def)
qed

lemma onTimeout_ignores_time:
  "map_sum id selection (onTimeout P (w\<lparr>clock := c, timers := ts\<rparr>)) = map_sum id selection (onTimeout P w)"
  by (auto simp: onTimeout_def Let_def bind_def getRangeAt_def setSelection_def cloneRange_def
      split: if_splits sum.splits)

lemma runCallback_ignores_time:
  "selection (runCallback P (w\<lparr>clock := c, timers := ts\<rparr>)) = selection (runCallback P w)"
proof -
  have eq: "w\<lparr>clock := c, timers := ts, passes := Suc (passes w)\<rparr> = (w\<lparr>passes := Suc (passes w)\<rparr>)\<lparr>clock := c, timers := ts\<rparr>"
    by simp
  have "map_sum id selection (onTimeout P ((w\<lparr>passes := Suc (passes w)\<rparr>)\<lparr>clock := c, timers := ts\<rparr>))
      = map_sum id selection (onTimeout P (w\<lparr>passes := Suc (passes w)\<rparr>))"
    by (rule onTimeout_ignores_time)
  then show ?thesis
    by (auto simp: runCallback_def Let_def eq split: sum.splits)
qed

lemma dispatch_rearms:
  assumes "pending w"
  shows "timers (handleSelectionChange w) = [(Suc (timerCounter w), clock w + 100)]
    \<and> selectionTimeoutRef (handleSelectionChange w) = Some (Suc (timerCounter w))
    \<and> clock (handleSelectionChange w) = clock w
    \<and> selection (handleSelectionChange w) = selection w
    \<and> passes (handleSelectionChange w) = passes w"
proof -
  have "filter (\<lambda>(j, dl). j \<noteq> i) (timers w) = []" if "selectionTimeoutRef w = Some i" for i
    using assms that by (auto simp: pending_def list_all_iff filter_empty_conv)
  moreover have "timers w = []" if "selectionTimeoutRef w = None \<or> selectionTimeoutRef w = Some 0"
    using assms that by (cases "timers w") (auto simp: pending_def)
  ultimately show ?thesis
    by (auto simp: handleSelectionChange_def setTimeout_def clearTimeout_def Let_def
        split: option.splits)
qed

lemma quiet_elapse:
  assumes "timers w = [(i, dl)]" and "clock w + gap < dl"
  shows "elapse P gap w = w\<lparr>clock := clock w + gap\<rparr>"
  using assms by (simp add: elapse_def due_def Let_def)

lemma firing_elapse:
  assumes "timers w = [(i, dl)]" and "dl \<le> clock w + d"
  shows "elapse P d w = (runCallback P (w\<lparr>clock := dl, timers := []\<rparr>))\<lparr>clock := clock w + d\<rparr>"
  using assms by (simp add: elapse_def due_def fire_def Let_def)

lemma browser_event_frame:
  assumes "browser_event e"
  shows "timers (step P e w) = timers w \<and> selectionTimeoutRef (step P e w) = selectionTimeoutRef w
    \<and> clock (step P e w) = clock w \<and> selection (step P e w) = selection w
    \<and> passes (step P e w) = passes w"
  using assms by (cases e) (simp_all add: select_def adjust_def mutate_def)

lemma browser_events_frame:
  assumes "list_all browser_event env"
  shows "timers (run P env w) = timers w \<and> selectionTimeoutRef (run P env w) = selectionTimeoutRef w
    \<and> clock (run P env w) = clock w \<and> selection (run P env w) = selection w
    \<and> passes (run P env w) = passes w"
  using assms
proof (induction env arbitrary: w)
  case Nil
  then show ?case by (simp add: run_Nil)
next
  case (Cons e env)
  then show ?case by (simp add: run_Cons browser_event_frame)
qed

lemma dispatched_world:
  assumes "level w0 w" and "list_all browser_event env"
  shows "timers (run P (env @ [SelectionChange]) w)
      = [(Suc (timerCounter (run P env w)), clock w + 100)]"
    and "selectionTimeoutRef (run P (env @ [SelectionChange]) w)
      = Some (Suc (timerCounter (run P env w)))"
    and "clock (run P (env @ [SelectionChange]) w) = clock w"
    and "selection (run P (env @ [SelectionChange]) w) = selection w0"
    and "passes (run P (env @ [SelectionChange]) w) = passes w0"
proof -
  from assms have p: "pending (run P env w)"
    by (simp add: level_def pending_def browser_events_frame)
  from dispatch_rearms [OF p] browser_events_frame [OF assms(2), of P w] assms(1)
  show "timers (run P (env @ [SelectionChange]) w)
      = [(Suc (timerCounter (run P env w)), clock w + 100)]"
    and "selectionTimeoutRef (run P (env @ [SelectionChange]) w)
      = Some (Suc (timerCounter (run P env w)))"
    and "clock (run P (env @ [SelectionChange]) w) = clock w"
    and "selection (run P (env @ [SelectionChange]) w) = selection w0"
    and "passes (run P (env @ [SelectionChange]) w) = passes w0"
    by (simp_all add: run_append run_Cons run_Nil level_def)
qed

lemma chunk_level:
  assumes "level w0 w" and "list_all browser_event env" and "gap < 100"
  shows "level w0 (run P (env @ [SelectionChange, Elapse gap]) w)"
proof -
  let ?v = "run P (env @ [SelectionChange]) w"
  note d = dispatched_world [OF assms(1,2), of P]
  have q: "elapse P gap ?v = ?v\<lparr>clock := clock ?v + gap\<rparr>"
    by (rule quiet_elapse [OF d(1)]) (use d(3) assms(3) in simp)
  have "run P (env @ [SelectionChange, Elapse gap]) w = elapse P gap ?v"
    by (simp add: run_append run_Cons run_Nil)
  with q d show ?thesis
    by (simp add: level_def pending_def)
qed

lemma notifications_level:
  assumes "level w0 w" and "quick bs"
  shows "level w0 (run P (notifications bs) w)"
  using assms
proof (induction bs arbitrary: w)
  case Nil
  then show ?case by (simp add: notifications_def run_Nil)
next
  case (Cons b bs)
  obtain env gap where b: "b = (env, gap)" by (cases b)
  from Cons.prems(2) have "list_all browser_event env" "gap < 100" "quick bs"
    by (simp_all add: quick_def b)
  with Cons.prems(1) have "level w0 (run P (env @ [SelectionChange, Elapse gap]) w)"
    by (simp add: chunk_level)
  then have "level w0 (run P (notifications bs) (run P (env @ [SelectionChange, Elapse gap]) w))"
    using \<open>quick bs\<close> by (rule Cons.IH)
  then show ?case
    by (simp add: notifications_def b run_append run_Cons run_Nil)
qed

lemma fires_frame:
  "set (timers (foldl (\<lambda>v x. fire P x v) w xs)) \<subseteq> set (timers w)
   \<and> selectionTimeoutRef (foldl (\<lambda>v x. fire P x v) w xs) = selectionTimeoutRef w"
proof (induction xs arbitrary: w)
  case Nil
  then show ?case by simp
next
  case (Cons x xs)
  have "set (timers (fire P x w)) \<subseteq> set (timers w)"
    "selectionTimeoutRef (fire P x w) = selectionTimeoutRef w"
    by (auto simp: fire_def runCallback_frame)
  with Cons.IH [of "fire P x w"] show ?case by auto
qed

lemma step_pending: "pending w \<Longrightarrow> pending (step P e w)"
proof (cases e)
  case SelectionChange
  assume "pending w"
  from dispatch_rearms [OF this] show ?thesis
    by (simp add: SelectionChange pending_def)
next
  case (Click target)
  assume "pending w"
  then show ?thesis
    by (auto simp: Click pending_def handleClickOutside_def bind_def setSelection_def
        removeAllRanges_def split: sum.splits if_splits)
next
  case Clear
  assume "pending w"
  then show ?thesis
    by (simp add: Clear pending_def clearSelection_def setSelection_def removeAllRanges_def)
next
  case (Elapse d)
  assume "pending w"
  with fires_frame [of P w "due (clock w + d) (timers w)"] show ?thesis
    by (auto simp: Elapse pending_def elapse_def Let_def list_all_iff)
next
  case (Select s rs)
  assume "pending w"
  then show ?thesis by (simp add: Select pending_def select_def)
next
  case (Adjust i r s)
  assume "pending w"
  then show ?thesis by (simp add: Adjust pending_def adjust_def)
next
  case (Mutate doc f)
  assume "pending w"
  then show ?thesis by (simp add: Mutate pending_def mutate_def)
qed

lemma reachable_pending: "pending (run P evs (init doc))"
proof -
  have "pending w \<Longrightarrow> pending (run P evs w)" for w
    unfolding run_def by (induction evs arbitrary: w) (simp_all add: step_pending)
  then show ?thesis by (simp add: pending_def init_def)
qed

text \<open>
  C4. After any history, take a quick burst of notifications, one more notification and a
  pause of at least 100 ms. No notification of the burst, and not the last one by itself,
  changes the state or runs the callback; after the last notification the timers set by
  the earlier ones are gone and one timer is pending, due 100 ms later; when the pause
  is over the callback has run exactly once, and the state is what the callback computes
  from the world as it stood right after the last notification.
\<close>

theorem trailing_edge_debounce:
  assumes "quick bs" and "list_all browser_event env" and "100 \<le> d"
  shows "(\<forall>n. selection (run P (history @ notifications (take n bs)) (init doc))
                = selection (run P history (init doc))
            \<and> passes (run P (history @ notifications (take n bs)) (init doc))
                = passes (run P history (init doc)))
    \<and> selection (run P (history @ notifications bs @ env @ [SelectionChange]) (init doc))
        = selection (run P history (init doc))
    \<and> map snd (timers (run P (history @ notifications bs @ env @ [SelectionChange]) (init doc)))
        = [clock (run P (history @ notifications bs @ env @ [SelectionChange]) (init doc)) + 100]
    \<and> passes (run P (history @ notifications bs @ env @ [SelectionChange, Elapse d]) (init doc))
        = Suc (passes (run P history (init doc)))
    \<and> selection (run P (history @ notifications bs @ env @ [SelectionChange, Elapse d]) (init doc))
        = selection (runCallback P
            (run P (history @ notifications bs @ env @ [SelectionChange]) (init doc)))"
proof -
  define w0 where "w0 = run P history (init doc)"
  have l0: "level w0 w0"
    by (simp add: level_def w0_def reachable_pending)
  have prefix: "level w0 (run P (notifications (take n bs)) w0)" for n
  proof -
    from assms(1) have "quick (take n bs)"
      by (auto simp: quick_def list_all_iff dest: in_set_takeD)
    with l0 show ?thesis by (rule notifications_level)
  qed
  define w where "w = run P (notifications bs) w0"
  from l0 assms(1) have lw: "level w0 w"
    unfolding w_def by (rule notifications_level)
  let ?v = "run P (env @ [SelectionChange]) w"
  note d = dispatched_world [OF lw assms(2), of P]
  have f: "elapse P d ?v
      = (runCallback P (?v\<lparr>clock := clock w + 100, timers := []\<rparr>))\<lparr>clock := clock ?v + d\<rparr>"
    by (simp add: d(3) firing_elapse [OF d(1)] assms(3))
  have last: "run P (env @ [SelectionChange, Elapse d]) w = elapse P d ?v"
    by (simp add: run_append run_Cons run_Nil)
  have "passes (elapse P d ?v) = Suc (passes w0)"
    using d by (simp add: f runCallback_frame)
  moreover have "selection (elapse P d ?v) = selection (runCallback P ?v)"
    by (simp add: f runCallback_ignores_time)
  moreover have "map snd (timers ?v) = [clock ?v + 100]"
    by (simp add: d(1) d(3))
  ultimately show ?thesis
    using prefix d(4) last
    by (simp add: run_append level_def flip: w0_def w_def)
qed

text \<open>
  Five notifications 50 ms apart, each after the selection has moved: to the second
  assistant message, to the user message, to the streaming message, to punctuation, and
  to the first assistant message. One pass, which stores the last selection.
\<close>

theorem trailing_edge_debounce_witness:
  "passes (run ascii_punct
     [Select (js ''other words'') [inside [0, 4, 0]], SelectionChange, Elapse 50,
      Adjust 0 (inside [0, 2, 0]) (js ''you said''), SelectionChange, Elapse 50,
      Adjust 0 (inside [0, 1, 0]) (js ''thinking''), SelectionChange, Elapse 50,
      Adjust 0 (inside [0, 0, 0, 0]) (js '' ..., !!! ''), SelectionChange, Elapse 50,
      Adjust 0 (inside [0, 0, 0, 0]) (js ''  hello world ''), SelectionChange, Elapse 100]
     (init page)) = 1
   \<and> selection (run ascii_punct
     [Select (js ''other words'') [inside [0, 4, 0]], SelectionChange, Elapse 50,
      Adjust 0 (inside [0, 2, 0]) (js ''you said''), SelectionChange, Elapse 50,
      Adjust 0 (inside [0, 1, 0]) (js ''thinking''), SelectionChange, Elapse 50,
      Adjust 0 (inside [0, 0, 0, 0]) (js '' ..., !!! ''), SelectionChange, Elapse 50,
      Adjust 0 (inside [0, 0, 0, 0]) (js ''  hello world ''), SelectionChange, Elapse 100]
     (init page))
     = \<lparr>text' = js ''hello world'', isValid = True, range' = Some 1, boundingRect = Some box\<rparr>"
proof -
  let ?bs = "[([Select (js ''other words'') [inside [0, 4, 0]]], 50),
              ([Adjust 0 (inside [0, 2, 0]) (js ''you said'')], 50),
              ([Adjust 0 (inside [0, 1, 0]) (js ''thinking'')], 50),
              ([Adjust 0 (inside [0, 0, 0, 0]) (js '' ..., !!! '')], 50::nat)]"
  let ?env = "[Adjust 0 (inside [0, 0, 0, 0]) (js ''  hello world '')]"
  have q: "quick ?bs" and b: "list_all browser_event ?env"
    by (simp_all add: quick_def)
  have once: "passes (run ascii_punct
      ([] @ notifications ?bs @ ?env @ [SelectionChange, Elapse 100]) (init page))
      = Suc (passes (run ascii_punct [] (init page)))"
    using trailing_edge_debounce [OF q b, of 100 ascii_punct "[]" page] by blast
  have stored: "selection (run ascii_punct
      ([] @ notifications ?bs @ ?env @ [SelectionChange, Elapse 100]) (init page))
     = \<lparr>text' = js ''hello world'', isValid = True, range' = Some 1, boundingRect = Some box\<rparr>"
    by (simp add: notifications_def run_defs page_valid) (simp add: text_defs box_def inside_def)
  from once stored show ?thesis
    by (simp add: notifications_def run_Nil init_def)
qed

section \<open>The stored range\<close>

lemma apart_time [simp]:
  "apart c (w\<lparr>clock := t, timers := ts\<rparr>) = apart c w"
  "apart c (w\<lparr>passes := n\<rparr>) = apart c w"
  "apart c (w\<lparr>uncaught := es\<rparr>) = apart c w"
  "apart c (w\<lparr>clock := t\<rparr>) = apart c w"
  by (simp_all add: apart_def own_ranges_def)

lemma kept_apart_time [simp]:
  "kept_apart (w\<lparr>clock := t, timers := ts\<rparr>) = kept_apart w"
  "kept_apart (w\<lparr>passes := n\<rparr>) = kept_apart w"
  "kept_apart (w\<lparr>uncaught := es\<rparr>) = kept_apart w"
  "kept_apart (w\<lparr>clock := t\<rparr>) = kept_apart w"
  by (simp_all add: kept_apart_def own_ranges_def split: option.splits)

lemma onTimeout_apart:
  assumes "onTimeout P w = Inr w'" and "apart c w"
  shows "apart c w' \<and> rangeObjects w' c = rangeObjects w c"
  using assms
  by (auto simp: onTimeout_def Let_def bind_def getRangeAt_def setSelection_def cloneRange_def
      own_ranges_def apart_def list_all_iff less_Suc_eq split: if_splits sum.splits)

lemma runCallback_apart:
  assumes "apart c w"
  shows "apart c (runCallback P w) \<and> rangeObjects (runCallback P w) c = rangeObjects w c"
proof (cases "onTimeout P (w\<lparr>passes := Suc (passes w)\<rparr>)")
  case (Inl e)
  with assms show ?thesis
    by (simp add: runCallback_def Let_def)
next
  case (Inr w')
  from assms have "apart c (w\<lparr>passes := Suc (passes w)\<rparr>)" by simp
  from onTimeout_apart [OF Inr this] Inr show ?thesis
    by (simp add: runCallback_def Let_def)
qed

lemma fire_apart:
  assumes "apart c w"
  shows "apart c (fire P x w) \<and> rangeObjects (fire P x w) c = rangeObjects w c"
  using runCallback_apart [of c "w\<lparr>clock := snd x, timers := filter (\<lambda>y. y \<noteq> x) (timers w)\<rparr>" P]
    assms
  by (simp add: fire_def)

lemma fires_apart:
  assumes "apart c w"
  shows "apart c (foldl (\<lambda>v x. fire P x v) w xs)
    \<and> rangeObjects (foldl (\<lambda>v x. fire P x v) w xs) c = rangeObjects w c"
  using assms
proof (induction xs arbitrary: w)
  case Nil
  then show ?case by simp
next
  case (Cons x xs)
  from fire_apart [OF Cons.prems, of P x] Cons.IH [of "fire P x w"] show ?case
    by simp
qed

lemma step_apart:
  assumes "apart c w" and "\<not> dom_mutation e"
  shows "apart c (step P e w) \<and> rangeObjects (step P e w) c = rangeObjects w c"
proof (cases e)
  case SelectionChange
  with assms show ?thesis
    by (auto simp: apart_def own_ranges_def handleSelectionChange_def setTimeout_def
        clearTimeout_def Let_def split: option.splits)
next
  case (Click target)
  with assms show ?thesis
    by (auto simp: apart_def own_ranges_def handleClickOutside_def bind_def setSelection_def
        removeAllRanges_def split: sum.splits if_splits)
next
  case Clear
  with assms show ?thesis
    by (simp add: apart_def own_ranges_def clearSelection_def setSelection_def removeAllRanges_def)
next
  case (Elapse d)
  from fires_apart [OF assms(1), of P "due (clock w + d) (timers w)"] show ?thesis
    by (simp add: Elapse elapse_def Let_def)
next
  case (Select s rs)
  with assms show ?thesis
    by (auto simp: apart_def own_ranges_def select_def list_all_iff)
next
  case (Adjust i r s)
  with assms show ?thesis
    by (auto simp: apart_def own_ranges_def adjust_def)
next
  case (Mutate doc f)
  with assms show ?thesis by simp
qed

lemma run_apart:
  assumes "apart c w" and "list_all (\<lambda>e. \<not> dom_mutation e) evs"
  shows "apart c (run P evs w) \<and> rangeObjects (run P evs w) c = rangeObjects w c"
  using assms
proof (induction evs arbitrary: w)
  case Nil
  then show ?case by (simp add: run_Nil)
next
  case (Cons e evs)
  from Cons.prems have s: "apart c (step P e w)" "rangeObjects (step P e w) c = rangeObjects w c"
    by (simp_all add: step_apart)
  from Cons.IH [OF s(1)] Cons.prems(2) s(2) show ?case
    by (simp add: run_Cons)
qed

lemma onTimeout_kept:
  assumes "onTimeout P w = Inr w'" and "kept_apart w"
  shows "kept_apart w'"
  using assms
  by (auto simp: onTimeout_def Let_def bind_def getRangeAt_def setSelection_def cloneRange_def
      own_ranges_def apart_def kept_apart_def emptySelection_def list_all_iff less_Suc_eq
      split: if_splits sum.splits)

lemma runCallback_kept:
  assumes "kept_apart w"
  shows "kept_apart (runCallback P w)"
proof (cases "onTimeout P (w\<lparr>passes := Suc (passes w)\<rparr>)")
  case (Inl e)
  with assms show ?thesis
    by (simp add: runCallback_def Let_def)
next
  case (Inr w')
  from assms have "kept_apart (w\<lparr>passes := Suc (passes w)\<rparr>)" by simp
  from onTimeout_kept [OF Inr this] Inr show ?thesis
    by (simp add: runCallback_def Let_def)
qed

lemma fires_kept:
  assumes "kept_apart w"
  shows "kept_apart (foldl (\<lambda>v x. fire P x v) w xs)"
  using assms
proof (induction xs arbitrary: w)
  case Nil
  then show ?case by simp
next
  case (Cons x xs)
  from Cons.prems have "kept_apart (fire P x w)"
    by (simp add: fire_def runCallback_kept)
  then show ?case
    by (simp add: Cons.IH)
qed

lemma step_kept: "kept_apart w \<Longrightarrow> kept_apart (step P e w)"
proof (cases e)
  case SelectionChange
  assume "kept_apart w"
  then show ?thesis
    by (auto simp: SelectionChange kept_apart_def apart_def own_ranges_def handleSelectionChange_def
        setTimeout_def clearTimeout_def Let_def split: option.splits)
next
  case (Click target)
  assume "kept_apart w"
  then show ?thesis
    by (auto simp: Click kept_apart_def apart_def own_ranges_def handleClickOutside_def bind_def
        setSelection_def removeAllRanges_def emptySelection_def split: sum.splits if_splits option.splits)
next
  case Clear
  assume "kept_apart w"
  then show ?thesis
    by (simp add: Clear kept_apart_def own_ranges_def clearSelection_def setSelection_def
        removeAllRanges_def emptySelection_def)
next
  case (Elapse d)
  assume "kept_apart w"
  then show ?thesis
    by (simp add: Elapse elapse_def Let_def fires_kept)
next
  case (Select s rs)
  assume "kept_apart w"
  then show ?thesis
    by (auto simp: Select kept_apart_def apart_def own_ranges_def select_def list_all_iff
        split: option.splits)
next
  case (Adjust i r s)
  assume "kept_apart w"
  then show ?thesis
    by (auto simp: Adjust kept_apart_def apart_def own_ranges_def adjust_def split: option.splits)
next
  case (Mutate doc f)
  assume "kept_apart w"
  then show ?thesis
    by (auto simp: Mutate kept_apart_def apart_def own_ranges_def mutate_def split: option.splits)
qed

lemma reachable_kept: "kept_apart (run P evs (init doc))"
proof -
  have "kept_apart w \<Longrightarrow> kept_apart (run P evs w)" for w
    unfolding run_def by (induction evs arbitrary: w) (simp_all add: step_kept)
  then show ?thesis by (simp add: kept_apart_def own_ranges_def init_def emptySelection_def)
qed

text \<open>
  C6, as stated, fails. The stored range is made by \<open>cloneRange\<close>: a new \<open>Range\<close> object
  with the same boundary points, which are references to nodes of the document. When the
  text node of the message is removed, the browser moves the boundary points of every
  \<open>Range\<close> object on the page, the stored one included: the state record is the same,
  and the range it holds is now collapsed in the paragraph. When instead the message
  starts streaming again, the stored object keeps its boundary points, but the range that
  was validated no longer passes the validator.
\<close>

theorem stored_range_follows_dom:
  "selection (run ascii_punct demo (init page))
     = \<lparr>text' = js ''hello world'', isValid = True, range' = Some 1, boundingRect = Some box\<rparr>
   \<and> rangeObjects (run ascii_punct demo (init page)) 1 = inside [0, 0, 0, 0]
   \<and> selection (run ascii_punct
        (demo @ [Mutate page_rerendered (after_removal [0, 0, 0, 0])]) (init page))
     = \<lparr>text' = js ''hello world'', isValid = True, range' = Some 1, boundingRect = Some box\<rparr>
   \<and> rangeObjects (run ascii_punct
        (demo @ [Mutate page_rerendered (after_removal [0, 0, 0, 0])]) (init page)) 1
     = \<lparr>startContainer = [0, 0, 0], startOffset = 0, endContainer = [0, 0, 0], endOffset = 0,
        commonAncestorContainer = [0, 0, 0], boundingClientRect = box\<rparr>
   \<and> validateSelection ascii_punct page (js ''hello world'')
        (Some (rangeObjects (run ascii_punct demo (init page)) 1)) = Inr True
   \<and> selection (run ascii_punct (demo @ [Mutate page_streaming id]) (init page))
     = \<lparr>text' = js ''hello world'', isValid = True, range' = Some 1, boundingRect = Some box\<rparr>
   \<and> validateSelection ascii_punct
        (document (run ascii_punct (demo @ [Mutate page_streaming id]) (init page)))
        (js ''hello world'')
        (Some (rangeObjects (run ascii_punct (demo @ [Mutate page_streaming id]) (init page)) 1))
     = Inr False"
proof -
  have moved: "after_removal [0, 0, 0, 0] (inside [0, 0, 0, 0])
     = \<lparr>startContainer = [0, 0, 0], startOffset = 0, endContainer = [0, 0, 0], endOffset = 0,
        commonAncestorContainer = [0, 0, 0], boundingClientRect = box\<rparr>"
    by (simp add: after_removal_def inside_def Let_def)
  have before: "validateSelection ascii_punct page (js ''hello world'')
      (Some (inside [0, 0, 0, 0])) = Inr True"
    by (simp add: validateSelection_def dom_defs text_defs)
  have after: "validateSelection ascii_punct page_streaming (js ''hello world'')
      (Some (inside [0, 0, 0, 0])) = Inr False"
    by (simp add: validateSelection_def dom_defs text_defs)
  show ?thesis
    by (simp add: run_append run_Cons run_Nil mutate_def page_run_valid
        page_run_clone [unfolded One_nat_def] moved before after)
qed

text \<open>
  C6, amended. The stored state, with its text, its rectangle of six numbers and the
  reference to its range, is altered by no later change of the live selection and by no
  later mutation of the document. The \<open>Range\<close> object that the stored range refers to
  is a copy of its own: it is written by no later event other than a mutation of the
  document, not by changes of the live selection, not by clicks, clearing, notifications
  or later passes of the callback. Only its boundary points are live: a mutation of the
  document can move them.
\<close>

theorem stored_range_untouched:
  assumes "range' (selection (run P history (init doc))) = Some c"
    and "list_all (\<lambda>e. \<not> dom_mutation e) later"
    and "list_all browser_event changes"
  shows "rangeObjects (run P (history @ later) (init doc)) c
           = rangeObjects (run P history (init doc)) c
       \<and> selection (run P (history @ changes) (init doc)) = selection (run P history (init doc))"
proof -
  from reachable_kept [of P history doc] assms(1)
  have "apart c (run P history (init doc))"
    by (simp add: kept_apart_def)
  from run_apart [OF this assms(2), of P]
    browser_events_frame [OF assms(3), of P "run P history (init doc)"]
  show ?thesis
    by (simp add: run_append)
qed

theorem stored_range_untouched_witness:
  "range' (selection (run ascii_punct demo (init page))) = Some 1
   \<and> rangeObjects (run ascii_punct
        (demo @ [Adjust 0 (inside [0, 2, 0]) (js ''you said''), SelectionChange, Clear,
                 Select (js ''other words'') [inside [0, 4, 0]], Click [0, 3]])
        (init page)) 1
     = inside [0, 0, 0, 0]
   \<and> selection (run ascii_punct
        (demo @ [Adjust 0 (inside [0, 2, 0]) (js ''you said''),
                 Mutate page_rerendered (after_removal [0, 0, 0, 0]),
                 Select (js ''other words'') [inside [0, 4, 0]],
                 Mutate page_streaming id])
        (init page))
     = \<lparr>text' = js ''hello world'', isValid = True, range' = Some 1, boundingRect = Some box\<rparr>"
proof -
  have c: "range' (selection (run ascii_punct demo (init page))) = Some 1"
    by (simp add: page_run_valid)
  from c stored_range_untouched [OF c,
      of "[Adjust 0 (inside [0, 2, 0]) (js ''you said''), SelectionChange, Clear,
           Select (js ''other words'') [inside [0, 4, 0]], Click [0, 3]]"
         "[Adjust 0 (inside [0, 2, 0]) (js ''you said''),
           Mutate page_rerendered (after_removal [0, 0, 0, 0]),
           Select (js ''other words'') [inside [0, 4, 0]],
           Mutate page_streaming id]"]
  show ?thesis
    by (simp add: page_run_valid page_run_clone [unfolded One_nat_def])
qed

end
